theory Spec2Isabelle
  imports Complex_Main
begin

section \<open>Errors raised by the program\<close>

text \<open>
  A label is the \<open>Timestamp\<close> that a data frame is sliced from. The index of a data
  frame holds timestamps of one resolution (nanoseconds, for an index that
  \<open>pd.to_datetime\<close> made) and one time zone; \<open>'t\<close> is the type of these. A
  \<open>Timestamp\<close> of that time zone that the resolution of the index can express is
  \<open>Stamp x\<close>. A \<open>Timestamp\<close> can be of a coarser resolution and lie outside the
  range of the index's resolution, as \<open>Timestamp('3000-01-01')\<close> does for
  nanoseconds: that is \<open>OutOfRange\<close>, and comparing it with the index fails.
\<close>

datatype 't label = Stamp 't | OutOfRange

text \<open>
  The program catches nothing: an exception of pandas leaves the function that called
  it. Three classes of exception occur. A \<open>KeyError\<close> carries the key that was not
  found: a column name (\<open>data_plot['forecast']\<close>) or an index label
  (\<open>data.loc[initial_date:]\<close>). A \<open>ValueError\<close> comes from
  \<open>pd.to_datetime\<close>. \<open>FileNotFoundError\<close> comes from \<open>pd.read_csv\<close>.
\<close>

datatype 't key = ColumnKey string | LabelKey "'t label"

datatype 't error = KeyError "'t key" | ValueError | FileNotFoundError

definition and_then :: "'e + 'a \<Rightarrow> ('a \<Rightarrow> 'e + 'b) \<Rightarrow> 'e + 'b" where
  "and_then r f = (case r of Inl e \<Rightarrow> Inl e | Inr v \<Rightarrow> f v)"

section \<open>Data frames\<close>

text \<open>
  A \<open>pandas.DataFrame\<close> as the program uses it: an index of timestamps and named
  columns of values. The values are only copied, never computed with, so their type is
  a parameter. Timestamps are compared, so their type is a linear order.
\<close>

record ('t, 'v) table =
  tindex :: "'t list"
  tcolumns :: "(string \<times> 'v list) list"

text \<open>Every column of a data frame has one value per index entry.\<close>

definition aligned :: "('t, 'v) table \<Rightarrow> bool" where
  "aligned t = list_all (\<lambda>cv. length (snd cv) = length (tindex t)) (tcolumns t)"

text \<open>\<open>df[name]\<close>: the column, or \<open>KeyError\<close>.\<close>

definition column :: "('t, 'v) table \<Rightarrow> string \<Rightarrow> 't error + 'v list" where
  "column t c =
     (case map_of (tcolumns t) c of
        None \<Rightarrow> Inl (KeyError (ColumnKey c))
      | Some ys \<Rightarrow> Inr ys)"

definition has_column :: "('t, 'v) table \<Rightarrow> string \<Rightarrow> bool" where
  "has_column t c = (c \<in> set (map fst (tcolumns t)))"

text \<open>Positional row slices: \<open>df.iloc[i:]\<close> and \<open>df.iloc[:j]\<close> for \<open>0 \<le> i, j\<close>.\<close>

definition drop_rows :: "nat \<Rightarrow> ('t, 'v) table \<Rightarrow> ('t, 'v) table" where
  "drop_rows i t =
     \<lparr>tindex = drop i (tindex t),
      tcolumns = map (\<lambda>cv. (fst cv, drop i (snd cv))) (tcolumns t)\<rparr>"

definition take_rows :: "nat \<Rightarrow> ('t, 'v) table \<Rightarrow> ('t, 'v) table" where
  "take_rows j t =
     \<lparr>tindex = take j (tindex t),
      tcolumns = map (\<lambda>cv. (fst cv, take j (snd cv))) (tcolumns t)\<rparr>"

subsection \<open>Label slices: \<open>data.loc[initial_date:]\<close>\<close>

text \<open>
  The left bound of a label slice is a position in the index. The label is first
  converted to the resolution of the index: for a label outside its range the lookup
  and the search that follows it both fail, and the slice raises \<open>KeyError\<close>, on
  every index. For a label that the index can express: on an ascending index the bound
  is found by binary search (\<open>searchsorted\<close>, left side), the number of entries
  before the label. On an index that is not ascending the label has to be found: its
  first position when its occurrences are adjacent, \<open>KeyError\<close> when they are not;
  a label that is absent is located by search in a descending index and is a
  \<open>KeyError\<close> otherwise.
\<close>

definition positions :: "'t list \<Rightarrow> 't \<Rightarrow> nat list" where
  "positions idx l = filter (\<lambda>i. idx ! i = l) [0..<length idx]"

definition get_slice_bound_left :: "('t::linorder) list \<Rightarrow> 't label \<Rightarrow> 't error + nat" where
  "get_slice_bound_left idx l =
     (case l of
        OutOfRange \<Rightarrow> Inl (KeyError (LabelKey OutOfRange))
      | Stamp x \<Rightarrow>
          if sorted idx then Inr (length (takeWhile (\<lambda>t. t < x) idx))
          else if x \<in> set idx then
            (let ps = positions idx x in
             if ps = [hd ps..<hd ps + length ps] then Inr (hd ps)
             else Inl (KeyError (LabelKey (Stamp x))))
          else if sorted (rev idx) then Inr (length (takeWhile (\<lambda>t. x < t) idx))
          else Inl (KeyError (LabelKey (Stamp x))))"

definition loc_from :: "('t::linorder, 'v) table \<Rightarrow> 't label \<Rightarrow> 't error + ('t, 'v) table" where
  "loc_from t l =
     and_then (get_slice_bound_left (tindex t) l) (\<lambda>i. Inr (drop_rows i t))"

subsection \<open>Positional slices with a negative stop: \<open>data_plot[:-(120-proy)]\<close>\<close>

text \<open>
  Python's rule for the stop of a slice over \<open>n\<close> rows: a negative stop counts from
  the end and is clamped at 0, a stop that is not negative is clamped at \<open>n\<close>.
  (\<open>-(120-proy)\<close> is negative for \<open>proy < 120\<close>, zero for \<open>proy = 120\<close>, positive beyond.)
\<close>

definition slice_stop :: "nat \<Rightarrow> int \<Rightarrow> nat" where
  "slice_stop n stop =
     (if stop < 0 then nat (max 0 (int n + stop)) else min (nat stop) n)"

definition head_until :: "int \<Rightarrow> ('t, 'v) table \<Rightarrow> ('t, 'v) table" where
  "head_until stop t = take_rows (slice_stop (length (tindex t)) stop) t"

section \<open>Figures\<close>

text \<open>
  A \<open>plotly\<close> figure as the program builds it: the traces, each with the keyword
  arguments that \<open>go.Scatter\<close> was given (an argument that was not given is
  \<open>None\<close>), and the layout attributes that the \<open>update_\<close> calls set.
\<close>

record ('t, 'v) scatter =
  sc_name :: string
  sc_x :: "'t list"
  sc_y :: "'v list"
  sc_mode :: "string option"
  sc_line_color :: "string option"
  sc_line_width :: "int option"
  sc_marker_color :: "string option"
  sc_fillcolor :: "string option"
  sc_fill :: "string option"
  sc_showlegend :: "bool option"

record layout =
  legend_orientation :: "string option"
  legend_yanchor :: "string option"
  legend_y :: "real option"
  legend_xanchor :: "string option"
  legend_x :: "real option"
  yaxis_title :: "string option"
  hovermode :: "string option"
  paper_bgcolor :: "string option"
  plot_bgcolor :: "string option"
  font_color :: "string option"
  xaxis_showgrid :: "bool option"
  xaxis_gridwidth :: "real option"
  xaxis_gridcolor :: "string option"
  yaxis_showgrid :: "bool option"
  yaxis_gridwidth :: "real option"
  yaxis_gridcolor :: "string option"

record ('t, 'v) figure =
  fig_data :: "('t, 'v) scatter list"
  fig_layout :: layout

definition Scatter :: "string \<Rightarrow> 't list \<Rightarrow> 'v list \<Rightarrow> ('t, 'v) scatter" where
  "Scatter n xs ys =
     \<lparr>sc_name = n, sc_x = xs, sc_y = ys, sc_mode = None, sc_line_color = None,
      sc_line_width = None, sc_marker_color = None, sc_fillcolor = None, sc_fill = None,
      sc_showlegend = None\<rparr>"

definition empty_layout :: layout where
  "empty_layout =
     \<lparr>legend_orientation = None, legend_yanchor = None, legend_y = None,
      legend_xanchor = None, legend_x = None, yaxis_title = None, hovermode = None,
      paper_bgcolor = None, plot_bgcolor = None, font_color = None,
      xaxis_showgrid = None, xaxis_gridwidth = None, xaxis_gridcolor = None,
      yaxis_showgrid = None, yaxis_gridwidth = None, yaxis_gridcolor = None\<rparr>"

definition Figure :: "('t, 'v) scatter list \<Rightarrow> ('t, 'v) figure" where
  "Figure trs = \<lparr>fig_data = trs, fig_layout = empty_layout\<rparr>"

definition update_layout :: "(layout \<Rightarrow> layout) \<Rightarrow> ('t, 'v) figure \<Rightarrow> ('t, 'v) figure" where
  "update_layout f fig = fig\<lparr>fig_layout := f (fig_layout fig)\<rparr>"

section \<open>\<open>plot_series\<close>\<close>

definition col_observed :: string where
  "col_observed = ''AT_load_actual_entsoe_transparency''"

definition col_forecast :: string where
  "col_forecast = ''forecast''"

definition col_upper :: string where
  "col_upper = ''Upper bound''"

definition col_lower :: string where
  "col_lower = ''Lower bound''"

definition required_columns :: "string list" where
  "required_columns = [col_observed, col_forecast, col_upper, col_lower]"

text \<open>The names of the first two traces, in UTF-8.\<close>

definition name_observed :: string where
  "name_observed = ''Demanda energ'' @ [CHR 0xC3, CHR 0xA9] @ ''tica''"

definition name_forecast :: string where
  "name_forecast = ''Proyecci'' @ [CHR 0xC3, CHR 0xB3] @ ''n''"

definition trace_observed :: "'t list \<Rightarrow> 'v list \<Rightarrow> ('t, 'v) scatter" where
  "trace_observed xs ys =
     (Scatter name_observed xs ys)
       \<lparr>sc_mode := Some ''lines'', sc_line_color := Some ''#188463''\<rparr>"

definition trace_forecast :: "'t list \<Rightarrow> 'v list \<Rightarrow> ('t, 'v) scatter" where
  "trace_forecast xs ys =
     (Scatter name_forecast xs ys)
       \<lparr>sc_mode := Some ''lines'', sc_line_color := Some ''#bbffeb''\<rparr>"

definition trace_upper :: "'t list \<Rightarrow> 'v list \<Rightarrow> ('t, 'v) scatter" where
  "trace_upper xs ys =
     (Scatter ''Upper Bound'' xs ys)
       \<lparr>sc_mode := Some ''lines'', sc_marker_color := Some ''#444'',
        sc_line_width := Some 0, sc_showlegend := Some False\<rparr>"

definition trace_lower :: "'t list \<Rightarrow> 'v list \<Rightarrow> ('t, 'v) scatter" where
  "trace_lower xs ys =
     (Scatter ''Lower Bound'' xs ys)
       \<lparr>sc_marker_color := Some ''#444'', sc_line_width := Some 0,
        sc_mode := Some ''lines'', sc_fillcolor := Some ''rgba(242, 255, 251, 0.3)'',
        sc_fill := Some ''tonexty'', sc_showlegend := Some False\<rparr>"

text \<open>The four layout updates of \<open>plot_series\<close>, in the order of the source.\<close>

definition style_legend :: "layout \<Rightarrow> layout" where
  "style_legend l =
     l\<lparr>legend_orientation := Some ''h'', legend_yanchor := Some ''bottom'',
       legend_y := Some 1.02, legend_xanchor := Some ''right'', legend_x := Some 1,
       yaxis_title := Some ''Demanda total [MW]'', hovermode := Some ''x''\<rparr>"

definition style_colors :: "layout \<Rightarrow> layout" where
  "style_colors l =
     l\<lparr>paper_bgcolor := Some ''rgba(0,0,0,0)'', plot_bgcolor := Some ''rgba(0,0,0,0)'',
       font_color := Some ''#2cfec1''\<rparr>"

definition update_xaxes :: "layout \<Rightarrow> layout" where
  "update_xaxes l =
     l\<lparr>xaxis_showgrid := Some True, xaxis_gridwidth := Some 0.25,
       xaxis_gridcolor := Some ''#7C7C7C''\<rparr>"

definition update_yaxes :: "layout \<Rightarrow> layout" where
  "update_yaxes l =
     l\<lparr>yaxis_showgrid := Some True, yaxis_gridwidth := Some 0.25,
       yaxis_gridcolor := Some ''#7C7C7C''\<rparr>"

definition plot_series ::
    "('t::linorder, 'v) table \<Rightarrow> 't label \<Rightarrow> int \<Rightarrow> 't error + ('t, 'v) figure" where
  "plot_series data initial_date proy =
     and_then (loc_from data initial_date) (\<lambda>sel.
       let data_plot = head_until (- (120 - proy)) sel in
       and_then (column data_plot col_observed) (\<lambda>y1.
       and_then (column data_plot col_forecast) (\<lambda>y2.
       and_then (column data_plot col_upper) (\<lambda>y3.
       and_then (column data_plot col_lower) (\<lambda>y4.
         Inr (update_layout update_yaxes
             (update_layout update_xaxes
             (update_layout style_colors
             (update_layout style_legend
             (Figure
               [trace_observed (tindex data_plot) y1,
                trace_forecast (tindex data_plot) y2,
                trace_upper (tindex data_plot) y3,
                trace_lower (tindex data_plot) y4]))))))))))"

section \<open>\<open>load_data\<close>\<close>

text \<open>
  The file \<open>datos_energia.csv\<close> is given as \<open>pd.read_csv\<close> hands it over: the
  named columns of cells, in the order of the file's rows, or nothing when there is no
  file. How pandas reads one cell as a timestamp is a parameter \<open>to_ts\<close> (no format
  is given in the source); a cell it cannot read makes \<open>pd.to_datetime\<close> raise
  \<open>ValueError\<close>. \<open>set_index\<close> moves the column \<open>time\<close> into the index. No
  step sorts.
\<close>

type_synonym 'c csv = "(string \<times> 'c list) list"

definition read_csv :: "'c csv option \<Rightarrow> 't error + 'c csv" where
  "read_csv file = (case file of None \<Rightarrow> Inl FileNotFoundError | Some cols \<Rightarrow> Inr cols)"

definition getitem :: "'c csv \<Rightarrow> string \<Rightarrow> 't error + 'c list" where
  "getitem cols c =
     (case map_of cols c of None \<Rightarrow> Inl (KeyError (ColumnKey c)) | Some cells \<Rightarrow> Inr cells)"

definition to_datetime_column :: "('c \<Rightarrow> 't option) \<Rightarrow> 'c list \<Rightarrow> 't error + 't list" where
  "to_datetime_column to_ts cells =
     (case those (map to_ts cells) of None \<Rightarrow> Inl ValueError | Some ts \<Rightarrow> Inr ts)"

definition set_index :: "'t list \<Rightarrow> 'c csv \<Rightarrow> ('t, 'c) table" where
  "set_index ts cols = \<lparr>tindex = ts, tcolumns = filter (\<lambda>cv. fst cv \<noteq> ''time'') cols\<rparr>"

definition load_data :: "('c \<Rightarrow> 't option) \<Rightarrow> 'c csv option \<Rightarrow> 't error + ('t, 'c) table" where
  "load_data to_ts file =
     and_then (read_csv file) (\<lambda>data3.
     and_then (getitem data3 ''time'') (\<lambda>cells.
     and_then (to_datetime_column to_ts cells) (\<lambda>ts.
       Inr (set_index ts data3))))"

section \<open>The callback \<open>update_output_div\<close>\<close>

text \<open>Timestamps of the application: nanoseconds since 1970-01-01 00:00.\<close>

type_synonym timestamp = int

text \<open>\<open>str\<close> of an integer: its decimal digits, with a minus sign when negative.\<close>

fun str_nat :: "nat \<Rightarrow> string" where
  "str_nat n =
     (if n < 10 then [char_of (48 + n)] else str_nat (n div 10) @ [char_of (48 + n mod 10)])"

declare str_nat.simps [simp del]

definition str_int :: "int \<Rightarrow> string" where
  "str_int i = (if i < 0 then CHR ''-'' # str_nat (nat (- i)) else str_nat (nat i))"

subsection \<open>\<open>pd.to_datetime(initial_date, format="%Y-%m-%d %H:%M")\<close>\<close>

text \<open>
  The format is matched as a regular expression, each directive a group of
  alternatives tried in order, with backtracking:
  \<^verbatim>\<open>%Y  \d\d\d\d\<close>,
  \<^verbatim>\<open>%m  1[0-2]|0[1-9]|[1-9]\<close>,
  \<^verbatim>\<open>%d  3[01]|[12]\d|0[1-9]|[1-9]| [1-9]\<close>,
  \<^verbatim>\<open>%H  2[0-3]|[0-1]\d|\d\<close>,
  \<^verbatim>\<open>%M  [0-5]\d|\d\<close>,
  and the blank of the format as \<^verbatim>\<open>\s+\<close>. A matcher returns, in the order of
  its attempts, the value it read and the rest of the text. The first match of the
  whole format counts; text left over after it, no match at all, a day that the month
  does not have and a moment outside the range of a nanosecond timestamp are all
  \<open>ValueError\<close>. Strings are ASCII.
\<close>

type_synonym 'a parser = "string \<Rightarrow> ('a \<times> string) list"

definition is_digit :: "char \<Rightarrow> bool" where
  "is_digit c = (48 \<le> (of_char c :: nat) \<and> (of_char c :: nat) \<le> 57)"

definition digit_val :: "char \<Rightarrow> nat" where
  "digit_val c = of_char c - 48"

definition is_space :: "char \<Rightarrow> bool" where
  "is_space c = ((of_char c :: nat) \<in> {9, 10, 11, 12, 13, 28, 29, 30, 31, 32})"

definition re_digit :: "nat \<Rightarrow> nat \<Rightarrow> nat parser" where
  "re_digit lo hi s =
     (case s of
        [] \<Rightarrow> []
      | c # r \<Rightarrow> if is_digit c \<and> lo \<le> digit_val c \<and> digit_val c \<le> hi then [(digit_val c, r)] else [])"

definition re_two :: "nat \<Rightarrow> nat \<Rightarrow> nat \<Rightarrow> nat \<Rightarrow> nat parser" where
  "re_two lo1 hi1 lo2 hi2 s =
     [(10 * a + b, r2). (a, r1) \<leftarrow> re_digit lo1 hi1 s, (b, r2) \<leftarrow> re_digit lo2 hi2 r1]"

definition re_lit :: "char \<Rightarrow> string \<Rightarrow> string list" where
  "re_lit c s = (case s of [] \<Rightarrow> [] | d # r \<Rightarrow> if d = c then [r] else [])"

fun re_spaces :: "string \<Rightarrow> string list" where
  "re_spaces [] = []"
| "re_spaces (c # r) = (if is_space c then re_spaces r @ [r] else [])"

definition re_Y :: "nat parser" where
  "re_Y s =
     [(1000 * a + 100 * b + 10 * c + d, r4).
        (a, r1) \<leftarrow> re_digit 0 9 s, (b, r2) \<leftarrow> re_digit 0 9 r1,
        (c, r3) \<leftarrow> re_digit 0 9 r2, (d, r4) \<leftarrow> re_digit 0 9 r3]"

definition re_m :: "nat parser" where
  "re_m s = re_two 1 1 0 2 s @ re_two 0 0 1 9 s @ re_digit 1 9 s"

definition re_d :: "nat parser" where
  "re_d s =
     re_two 3 3 0 1 s @ re_two 1 2 0 9 s @ re_two 0 0 1 9 s @ re_digit 1 9 s @
     [(d, r). r1 \<leftarrow> re_lit CHR '' '' s, (d, r) \<leftarrow> re_digit 1 9 r1]"

definition re_H :: "nat parser" where
  "re_H s = re_two 2 2 0 3 s @ re_two 0 1 0 9 s @ re_digit 0 9 s"

definition re_M :: "nat parser" where
  "re_M s = re_two 0 5 0 9 s @ re_digit 0 9 s"

definition match_format :: "(nat \<times> nat \<times> nat \<times> nat \<times> nat) parser" where
  "match_format s =
     [((y, m, d, H, M), r9).
        (y, r1) \<leftarrow> re_Y s, r2 \<leftarrow> re_lit CHR ''-'' r1,
        (m, r3) \<leftarrow> re_m r2, r4 \<leftarrow> re_lit CHR ''-'' r3,
        (d, r5) \<leftarrow> re_d r4, r6 \<leftarrow> re_spaces r5,
        (H, r7) \<leftarrow> re_H r6, r8 \<leftarrow> re_lit CHR '':'' r7,
        (M, r9) \<leftarrow> re_M r8]"

definition is_leap :: "nat \<Rightarrow> bool" where
  "is_leap y = (y mod 4 = 0 \<and> (y mod 100 \<noteq> 0 \<or> y mod 400 = 0))"

definition days_in_month :: "nat \<Rightarrow> nat \<Rightarrow> nat" where
  "days_in_month y m =
     (if m = 2 then (if is_leap y then 29 else 28)
      else if m \<in> {4, 6, 9, 11} then 30 else 31)"

definition days_from_civil :: "nat \<Rightarrow> nat \<Rightarrow> nat \<Rightarrow> int" where
  "days_from_civil y m d =
     (let y' = int y - (if m \<le> 2 then 1 else 0);
          era = y' div 400;
          yoe = y' - era * 400;
          doy = (153 * (int m + (if m > 2 then - 3 else 9)) + 2) div 5 + int d - 1;
          doe = yoe * 365 + yoe div 4 - yoe div 100 + doy
      in era * 146097 + doe - 719468)"

definition timestamp_of :: "nat \<times> nat \<times> nat \<times> nat \<times> nat \<Rightarrow> timestamp error + timestamp" where
  "timestamp_of f =
     (case f of (y, m, d, H, M) \<Rightarrow>
        if y < 1 \<or> days_in_month y m < d then Inl ValueError
        else
          (let ns = ((days_from_civil y m d * 24 + int H) * 60 + int M) * 60 * 1000000000
           in if ns < - 9223372036854775807 \<or> 9223372036854775807 < ns then Inl ValueError
              else Inr ns))"

definition to_datetime :: "string \<Rightarrow> timestamp error + timestamp" where
  "to_datetime s =
     (case match_format s of
        [] \<Rightarrow> Inl ValueError
      | (f, r) # _ \<Rightarrow> if r \<noteq> [] then Inl ValueError else timestamp_of f)"

subsection \<open>The callback\<close>

text \<open>
  The module variable \<open>data\<close> is the first argument. What \<open>pd.to_datetime\<close>
  returns is a nanosecond timestamp without time zone, as the entries of the index
  that \<open>load_data\<close> makes, so it is a \<open>Stamp\<close>. An input that Dash passes as
  \<open>None\<close> is \<open>None\<close>. The callback's outcome is \<open>Inr None\<close> when it ends
  without a \<open>return\<close>, \<open>Inr (Some fig)\<close> for \<open>return plot\<close>, and the
  exception otherwise. Beside the outcome stands the list of the calls of
  \<open>plot_series\<close> that the callback made, each with its start and horizon, so that
  "the chart builder is not invoked" can be stated. The hour dropdown offers
  \<open>np.arange(0, 25)\<close>.
\<close>

definition update_output_div ::
    "(timestamp, 'v) table \<Rightarrow> string option \<Rightarrow> int option \<Rightarrow> int option \<Rightarrow>
       (timestamp \<times> int) list \<times> (timestamp error + (timestamp, 'v) figure option)" where
  "update_output_div data date hour proy =
     (case (date, hour, proy) of
        (Some d, Some h, Some p) \<Rightarrow>
          (case to_datetime (d @ '' '' @ str_int h @ '':'' @ str_int 0) of
             Inl e \<Rightarrow> ([], Inl e)
           | Inr initial_date \<Rightarrow>
               ([(initial_date, p)],
                and_then (plot_series data (Stamp initial_date) p) (\<lambda>plot. Inr (Some plot))))
      | _ \<Rightarrow> ([], Inr None))"

definition hour_options :: "int list" where
  "hour_options = [0..24]"

text \<open>
  The decorator \<open>@app.callback(Output("plot_series", "figure"), ...)\<close> makes the
  value that the callback returns the new \<open>figure\<close> property of the graph
  \<open>plot_series\<close>; \<open>None\<close> is a value like any other. The property keeps its value
  when the callback raises. (A callback keeps an output as it is by raising
  \<open>PreventUpdate\<close> or returning \<open>no_update\<close>; \<open>update_output_div\<close> does
  neither.)
\<close>

definition figure_after :: "'f option \<Rightarrow> 'e + 'f option \<Rightarrow> 'f option" where
  "figure_after shown outcome = (case outcome of Inl e \<Rightarrow> shown | Inr v \<Rightarrow> v)"

section \<open>Notions used in the statements\<close>

text \<open>The figure that \<open>plot_series\<close> returns for given x values and four y series.\<close>

definition figure_of :: "'t list \<Rightarrow> 'v list \<Rightarrow> 'v list \<Rightarrow> 'v list \<Rightarrow> 'v list \<Rightarrow> ('t, 'v) figure" where
  "figure_of xs y1 y2 y3 y4 =
     update_layout update_yaxes
       (update_layout update_xaxes
       (update_layout style_colors
       (update_layout style_legend
       (Figure [trace_observed xs y1, trace_forecast xs y2, trace_upper xs y3, trace_lower xs y4]))))"

text \<open>The table has the four columns that \<open>plot_series\<close> reads.\<close>

definition has_required :: "('t, 'v) table \<Rightarrow> bool" where
  "has_required t = list_all (has_column t) required_columns"

text \<open>For each trace of a figure, the number of its x values and of its y values.\<close>

definition series_lengths :: "('t, 'v) figure \<Rightarrow> (nat \<times> nat) list" where
  "series_lengths fig = map (\<lambda>tr. (length (sc_x tr), length (sc_y tr))) (fig_data fig)"

text \<open>
  A table of \<open>n\<close> rows with the timestamps \<open>0, \<dots>, n - 1\<close> and the four
  columns; the concrete input of the examples below.
\<close>

definition demo_table :: "nat \<Rightarrow> (int, int) table" where
  "demo_table n =
     \<lparr>tindex = map int [0..<n],
      tcolumns =
        [(col_observed, map (\<lambda>i. 5000 + int i) [0..<n]),
         (col_forecast, map (\<lambda>i. 5100 + int i) [0..<n]),
         (col_upper, map (\<lambda>i. 5200 + int i) [0..<n]),
         (col_lower, map (\<lambda>i. 4900 + int i) [0..<n])]\<rparr>"

text \<open>
  The values of a column at the index entries from \<open>s\<close> on, and a list without its
  last \<open>k\<close> elements.
\<close>

definition rows_from :: "('t::linorder) \<Rightarrow> 't list \<Rightarrow> 'a list \<Rightarrow> 'a list" where
  "rows_from s idx ys = map snd (filter (\<lambda>p. s \<le> fst p) (zip idx ys))"

definition drop_last :: "nat \<Rightarrow> 'a list \<Rightarrow> 'a list" where
  "drop_last k xs = take (length xs - k) xs"

text \<open>The layout that the figure is to have.\<close>

definition chart_layout :: layout where
  "chart_layout =
     \<lparr>legend_orientation = Some ''h'', legend_yanchor = Some ''bottom'', legend_y = Some 1.02,
      legend_xanchor = Some ''right'', legend_x = Some 1,
      yaxis_title = Some ''Demanda total [MW]'', hovermode = Some ''x'',
      paper_bgcolor = Some ''rgba(0,0,0,0)'', plot_bgcolor = Some ''rgba(0,0,0,0)'',
      font_color = Some ''#2cfec1'',
      xaxis_showgrid = Some True, xaxis_gridwidth = Some 0.25, xaxis_gridcolor = Some ''#7C7C7C'',
      yaxis_showgrid = Some True, yaxis_gridwidth = Some 0.25, yaxis_gridcolor = Some ''#7C7C7C''\<rparr>"

text \<open>
  The timestamps of a file, in the order of its rows, and the first and last index
  entry of a table.
\<close>

definition file_timestamps :: "('c \<Rightarrow> 't option) \<Rightarrow> 'c csv \<Rightarrow> 't list option" where
  "file_timestamps to_ts cols =
     (case map_of cols ''time'' of None \<Rightarrow> None | Some cells \<Rightarrow> those (map to_ts cells))"

definition first_timestamp :: "('t, 'v) table \<Rightarrow> 't option" where
  "first_timestamp t = (case tindex t of [] \<Rightarrow> None | x # _ \<Rightarrow> Some x)"

definition last_timestamp :: "('t, 'v) table \<Rightarrow> 't option" where
  "last_timestamp t = (if tindex t = [] then None else Some (last (tindex t)))"

text \<open>A file whose rows are out of order, and the same rows in order.\<close>

definition shuffled_file :: "int csv" where
  "shuffled_file =
     [(''time'', [2, 3, 1]), (col_observed, [5002, 5003, 5001]), (col_forecast, [5102, 5103, 5101]),
      (col_upper, [5202, 5203, 5201]), (col_lower, [4902, 4903, 4901])]"

definition ordered_file :: "int csv" where
  "ordered_file =
     [(''time'', [1, 2, 3]), (col_observed, [5001, 5002, 5003]), (col_forecast, [5101, 5102, 5103]),
      (col_upper, [5201, 5202, 5203]), (col_lower, [4901, 4902, 4903])]"

text \<open>The strings that \<open>%H\<close> and \<open>%M\<close> match.\<close>

definition hour_text :: "string \<Rightarrow> bool" where
  "hour_text u \<longleftrightarrow>
     (\<exists>c. u = [c] \<and> is_digit c) \<or>
     (\<exists>c1 c2. u = [c1, c2] \<and> (digit_val c1 = 2 \<and> digit_val c2 \<le> 3 \<or> digit_val c1 \<le> 1))"

definition minute_text :: "string \<Rightarrow> bool" where
  "minute_text u \<longleftrightarrow> (\<exists>c. u = [c] \<and> is_digit c) \<or> (\<exists>c1 c2. u = [c1, c2] \<and> is_digit c1)"

text \<open>The example table without its \<open>Lower bound\<close> column.\<close>

definition demo_no_lower :: "nat \<Rightarrow> (int, int) table" where
  "demo_no_lower n = (demo_table n)\<lparr>tcolumns := butlast (tcolumns (demo_table n))\<rparr>"

text \<open>A table with the four columns whose index is not ascending.\<close>

definition demo_unsorted :: "(int, int) table" where
  "demo_unsorted =
     \<lparr>tindex = [2, 3, 1],
      tcolumns =
        [(col_observed, [5002, 5003, 5001]), (col_forecast, [5102, 5103, 5101]),
         (col_upper, [5202, 5203, 5201]), (col_lower, [4902, 4903, 4901])]\<rparr>"

section \<open>Lemmas about slicing and the figure\<close>

lemma and_then_Inr [simp]: "and_then (Inr v) f = f v"
  by (simp add: and_then_def)

lemma and_then_Inl [simp]: "and_then (Inl e) f = Inl e"
  by (simp add: and_then_def)

lemma sorted_dropWhile_less:
  "sorted xs \<Longrightarrow> dropWhile (\<lambda>t. t < l) xs = filter (\<lambda>t. l \<le> t) (xs :: ('t::linorder) list)"
proof (induction xs)
  case Nil
  then show ?case by simp
next
  case (Cons x xs)
  show ?case
  proof (cases "x < l")
    case True
    with Cons show ?thesis by simp
  next
    case False
    with Cons.prems have "\<forall>y\<in>set xs. l \<le> y" by auto
    then have "filter (\<lambda>t. l \<le> t) xs = xs" by simp
    with False show ?thesis by simp
  qed
qed

lemma drop_bound_sorted:
  "sorted xs \<Longrightarrow>
     drop (length (takeWhile (\<lambda>t. t < l) xs)) xs = filter (\<lambda>t. l \<le> t) (xs :: ('t::linorder) list)"
  by (simp add: sorted_dropWhile_less [symmetric] dropWhile_eq_drop)

lemma map_of_map_snd:
  "map_of (map (\<lambda>cv. (fst cv, f (snd cv))) cs) c = map_option f (map_of cs c)"
  by (induction cs) auto

lemma column_drop_rows:
  "column (drop_rows i t) c = and_then (column t c) (\<lambda>ys. Inr (drop i ys))"
  by (simp add: column_def drop_rows_def map_of_map_snd split: option.splits)

lemma column_take_rows:
  "column (take_rows j t) c = and_then (column t c) (\<lambda>ys. Inr (take j ys))"
  by (simp add: column_def take_rows_def map_of_map_snd split: option.splits)

lemma column_head_until:
  "column (head_until stop t) c =
     and_then (column t c) (\<lambda>ys. Inr (take (slice_stop (length (tindex t)) stop) ys))"
  by (simp add: head_until_def column_take_rows)

lemma tindex_head_until:
  "tindex (head_until stop t) = take (slice_stop (length (tindex t)) stop) (tindex t)"
  by (simp add: head_until_def take_rows_def)

lemma loc_from_sorted:
  "sorted (tindex t) \<Longrightarrow>
     loc_from t (Stamp l) = Inr (drop_rows (length (takeWhile (\<lambda>x. x < l) (tindex t))) t)"
  by (simp add: loc_from_def get_slice_bound_left_def)

lemma tindex_loc_sorted:
  "sorted (tindex t) \<Longrightarrow>
     tindex (drop_rows (length (takeWhile (\<lambda>x. x < l) (tindex t))) t) = filter (\<lambda>x. l \<le> x) (tindex t)"
  by (simp add: drop_rows_def drop_bound_sorted)

lemma column_aligned:
  "aligned t \<Longrightarrow> has_column t c \<Longrightarrow> \<exists>ys. column t c = Inr ys \<and> length ys = length (tindex t)"
proof -
  assume a: "aligned t" and h: "has_column t c"
  from h obtain ys where m: "map_of (tcolumns t) c = Some ys"
    unfolding has_column_def
    by (metis domD dom_map_of_conv_image_fst list.set_map)
  then have "(c, ys) \<in> set (tcolumns t)" by (rule map_of_SomeD)
  with a have "length ys = length (tindex t)"
    by (auto simp: aligned_def list_all_iff)
  with m show ?thesis by (simp add: column_def)
qed

lemma and_then_assoc_Inr:
  "and_then (and_then r (\<lambda>a. Inr (g a))) f = and_then r (\<lambda>a. f (g a))"
  by (cases r) simp_all

lemma and_then_eq_Inr:
  "and_then r f = Inr v \<longleftrightarrow> (\<exists>a. r = Inr a \<and> f a = Inr v)"
  by (cases r) simp_all

lemma tindex_drop_rows: "tindex (drop_rows i t) = drop i (tindex t)"
  by (simp add: drop_rows_def)

lemma column_window:
  "column (head_until stop (drop_rows i t)) c =
     and_then (column t c)
       (\<lambda>ys. Inr (take (slice_stop (length (tindex t) - i) stop) (drop i ys)))"
  by (simp add: column_head_until column_drop_rows and_then_assoc_Inr tindex_drop_rows)

lemma tindex_window:
  "tindex (head_until stop (drop_rows i t)) =
     take (slice_stop (length (tindex t) - i) stop) (drop i (tindex t))"
  by (simp add: tindex_head_until tindex_drop_rows)

lemma plot_series_unfold:
  "plot_series t s h =
     and_then (get_slice_bound_left (tindex t) s) (\<lambda>i.
       and_then (column t col_observed) (\<lambda>c1.
       and_then (column t col_forecast) (\<lambda>c2.
       and_then (column t col_upper) (\<lambda>c3.
       and_then (column t col_lower) (\<lambda>c4.
         Inr (figure_of
           (take (slice_stop (length (tindex t) - i) (- (120 - h))) (drop i (tindex t)))
           (take (slice_stop (length (tindex t) - i) (- (120 - h))) (drop i c1))
           (take (slice_stop (length (tindex t) - i) (- (120 - h))) (drop i c2))
           (take (slice_stop (length (tindex t) - i) (- (120 - h))) (drop i c3))
           (take (slice_stop (length (tindex t) - i) (- (120 - h))) (drop i c4))))))))"
  unfolding plot_series_def loc_from_def Let_def and_then_assoc_Inr
    column_window tindex_window figure_of_def ..

lemma fig_data_figure_of:
  "fig_data (figure_of xs y1 y2 y3 y4) =
     [trace_observed xs y1, trace_forecast xs y2, trace_upper xs y3, trace_lower xs y4]"
  by (simp add: figure_of_def update_layout_def Figure_def)

lemma series_lengths_figure_of:
  "series_lengths (figure_of xs y1 y2 y3 y4) =
     [(length xs, length y1), (length xs, length y2), (length xs, length y3), (length xs, length y4)]"
  by (simp add: series_lengths_def fig_data_figure_of trace_observed_def trace_forecast_def
      trace_upper_def trace_lower_def Scatter_def)

lemma has_requiredD:
  "has_required t \<Longrightarrow>
     has_column t col_observed \<and> has_column t col_forecast \<and> has_column t col_upper \<and> has_column t col_lower"
  by (simp add: has_required_def required_columns_def)

lemma has_column_Inr: "has_column t c \<Longrightarrow> \<exists>ys. column t c = Inr ys"
proof -
  assume "has_column t c"
  then obtain ys where "map_of (tcolumns t) c = Some ys"
    unfolding has_column_def
    by (metis domD dom_map_of_conv_image_fst list.set_map)
  then show ?thesis by (simp add: column_def)
qed

lemma column_Inr_has: "column t c = Inr ys \<Longrightarrow> has_column t c"
  by (auto simp: column_def has_column_def split: option.splits dest: map_of_SomeD intro: rev_image_eqI)

lemma not_has_column: "\<not> has_column t c \<Longrightarrow> column t c = Inl (KeyError (ColumnKey c))"
  using column_Inr_has [of t c] by (cases "column t c") (auto simp: column_def split: option.splits)

lemma get_slice_bound_left_sorted:
  "sorted idx \<Longrightarrow> get_slice_bound_left idx (Stamp l) = Inr (length (takeWhile (\<lambda>x. x < l) idx))"
  by (simp add: get_slice_bound_left_def)

lemma get_slice_bound_left_OutOfRange:
  "get_slice_bound_left idx OutOfRange = Inl (KeyError (LabelKey OutOfRange))"
  by (simp add: get_slice_bound_left_def)

lemma length_rows_from:
  "sorted idx \<Longrightarrow>
     length idx - length (takeWhile (\<lambda>x. x < l) idx) = length (filter (\<lambda>x. l \<le> x) (idx :: ('t::linorder) list))"
  using drop_bound_sorted [of idx l] by (metis length_drop)

text \<open>The chart of a table with an ascending index and the four columns.\<close>

lemma plot_series_sorted:
  assumes "sorted (tindex t)"
    and "column t col_observed = Inr c1" and "column t col_forecast = Inr c2"
    and "column t col_upper = Inr c3" and "column t col_lower = Inr c4"
  shows "plot_series t (Stamp s) h =
     Inr (figure_of
       (take (slice_stop (length (filter (\<lambda>x. s \<le> x) (tindex t))) (- (120 - h)))
          (filter (\<lambda>x. s \<le> x) (tindex t)))
       (take (slice_stop (length (filter (\<lambda>x. s \<le> x) (tindex t))) (- (120 - h)))
          (drop (length (takeWhile (\<lambda>x. x < s) (tindex t))) c1))
       (take (slice_stop (length (filter (\<lambda>x. s \<le> x) (tindex t))) (- (120 - h)))
          (drop (length (takeWhile (\<lambda>x. x < s) (tindex t))) c2))
       (take (slice_stop (length (filter (\<lambda>x. s \<le> x) (tindex t))) (- (120 - h)))
          (drop (length (takeWhile (\<lambda>x. x < s) (tindex t))) c3))
       (take (slice_stop (length (filter (\<lambda>x. s \<le> x) (tindex t))) (- (120 - h)))
          (drop (length (takeWhile (\<lambda>x. x < s) (tindex t))) c4)))"
  using assms
  by (simp add: plot_series_unfold get_slice_bound_left_sorted length_rows_from drop_bound_sorted)

lemma series_lengths_sorted:
  assumes "sorted (tindex t)" and "aligned t" and "has_required t"
    and "k = slice_stop (length (filter (\<lambda>x. s \<le> x) (tindex t))) (- (120 - h))"
  shows "\<exists>fig. plot_series t (Stamp s) h = Inr fig \<and> series_lengths fig = [(k, k), (k, k), (k, k), (k, k)]"
proof -
  let ?n = "length (filter (\<lambda>x. s \<le> x) (tindex t))"
  let ?i = "length (takeWhile (\<lambda>x. x < s) (tindex t))"
  from assms(3) have hc: "has_column t col_observed" "has_column t col_forecast"
    "has_column t col_upper" "has_column t col_lower"
    by (simp_all add: has_requiredD)
  from column_aligned [OF assms(2) hc(1)] obtain c1
    where c1: "column t col_observed = Inr c1" "length c1 = length (tindex t)" by blast
  from column_aligned [OF assms(2) hc(2)] obtain c2
    where c2: "column t col_forecast = Inr c2" "length c2 = length (tindex t)" by blast
  from column_aligned [OF assms(2) hc(3)] obtain c3
    where c3: "column t col_upper = Inr c3" "length c3 = length (tindex t)" by blast
  from column_aligned [OF assms(2) hc(4)] obtain c4
    where c4: "column t col_lower = Inr c4" "length c4 = length (tindex t)" by blast
  have k: "k \<le> ?n" unfolding assms(4) by (auto simp: slice_stop_def)
  have n: "length (tindex t) - ?i = ?n" using assms(1) by (rule length_rows_from)
  have len: "length (take k (drop ?i c)) = k" if "length c = length (tindex t)" for c :: "'b list"
    using that k n by simp
  have lenx: "length (take k (filter (\<lambda>x. s \<le> x) (tindex t))) = k"
    using k by simp
  have "series_lengths (figure_of (take k (filter (\<lambda>x. s \<le> x) (tindex t)))
          (take k (drop ?i c1)) (take k (drop ?i c2)) (take k (drop ?i c3)) (take k (drop ?i c4))) =
        [(k, k), (k, k), (k, k), (k, k)]"
    unfolding series_lengths_figure_of lenx len [OF c1(2)] len [OF c2(2)] len [OF c3(2)] len [OF c4(2)]
    by (rule refl)
  then show ?thesis
    using plot_series_sorted [OF assms(1) c1(1) c2(1) c3(1) c4(1), of s h]
    unfolding assms(4) by blast
qed

lemma sorted_demo: "sorted (tindex (demo_table n))"
  by (simp add: demo_table_def sorted_map sorted_wrt_iff_nth_less)

lemma aligned_demo: "aligned (demo_table n)"
  by (simp add: demo_table_def aligned_def)

lemma has_required_demo: "has_required (demo_table n)"
  by (simp add: demo_table_def has_required_def required_columns_def has_column_def)

lemma rows_from_demo:
  "length (filter (\<lambda>x. int k \<le> x) (tindex (demo_table n))) = n - k"
  by (induction n) (auto simp: demo_table_def)


lemma get_slice_bound_left_Inl:
  "get_slice_bound_left idx l = Inl e \<Longrightarrow>
     e = KeyError (LabelKey l) \<and> (l = OutOfRange \<or> \<not> sorted idx)"
  by (auto simp: get_slice_bound_left_def Let_def split: if_splits label.splits)

lemma column_Inl:
  "column t c = Inl e \<Longrightarrow> e = KeyError (ColumnKey c) \<and> \<not> has_column t c"
  using has_column_Inr [of t c] by (auto simp: column_def split: option.splits)

lemma plot_series_Inr:
  assumes "plot_series t s h = Inr fig"
  shows "\<exists>xs y1 y2 y3 y4. fig = figure_of xs y1 y2 y3 y4"
  using assms unfolding plot_series_unfold and_then_eq_Inr by blast

lemma plot_series_Inl:
  assumes "plot_series t s h = Inl e"
  shows "e = KeyError (LabelKey s) \<and> (s = OutOfRange \<or> \<not> sorted (tindex t)) \<or>
         (\<exists>c. e = KeyError (ColumnKey c) \<and> c \<in> set required_columns \<and> \<not> has_column t c)"
proof (cases "get_slice_bound_left (tindex t) s")
  case (Inl e')
  with assms have "e' = e" by (simp add: plot_series_unfold)
  with Inl show ?thesis by (auto dest: get_slice_bound_left_Inl)
next
  case i: (Inr i)
  have req: "col_observed \<in> set required_columns" "col_forecast \<in> set required_columns"
    "col_upper \<in> set required_columns" "col_lower \<in> set required_columns"
    by (simp_all add: required_columns_def)
  show ?thesis
  proof (cases "column t col_observed")
    case (Inl e')
    with assms i have "e' = e" by (simp add: plot_series_unfold)
    with Inl req(1) show ?thesis by (blast dest: column_Inl)
  next
    case c1: (Inr c1)
    show ?thesis
    proof (cases "column t col_forecast")
      case (Inl e')
      with assms i c1 have "e' = e" by (simp add: plot_series_unfold)
      with Inl req(2) show ?thesis by (blast dest: column_Inl)
    next
      case c2: (Inr c2)
      show ?thesis
      proof (cases "column t col_upper")
        case (Inl e')
        with assms i c1 c2 have "e' = e" by (simp add: plot_series_unfold)
        with Inl req(3) show ?thesis by (blast dest: column_Inl)
      next
        case c3: (Inr c3)
        show ?thesis
        proof (cases "column t col_lower")
          case (Inl e')
          with assms i c1 c2 c3 have "e' = e" by (simp add: plot_series_unfold)
          with Inl req(4) show ?thesis by (blast dest: column_Inl)
        next
          case (Inr c4)
          with assms i c1 c2 c3 show ?thesis by (simp add: plot_series_unfold)
        qed
      qed
    qed
  qed
qed

lemma plot_series_needs_lower:
  "plot_series t s h = Inr fig \<Longrightarrow> has_column t col_lower"
  unfolding plot_series_unfold and_then_eq_Inr by (blast dest: column_Inr_has)

subsection \<open>Lemmas about the format, the loader and the content of the figure\<close>

lemma re_digit_elim:
  "(v, r) \<in> set (re_digit lo hi s) \<Longrightarrow>
     \<exists>c. s = c # r \<and> is_digit c \<and> lo \<le> digit_val c \<and> digit_val c \<le> hi \<and> v = digit_val c"
  by (auto simp: re_digit_def split: list.splits if_splits)

lemma re_two_elim:
  "(v, r) \<in> set (re_two lo1 hi1 lo2 hi2 s) \<Longrightarrow>
     \<exists>c1 c2. s = c1 # c2 # r \<and> is_digit c1 \<and> is_digit c2 \<and>
       lo1 \<le> digit_val c1 \<and> digit_val c1 \<le> hi1 \<and> lo2 \<le> digit_val c2 \<and> digit_val c2 \<le> hi2"
  by (auto simp: re_two_def dest!: re_digit_elim)

lemma re_lit_elim: "r \<in> set (re_lit c s) \<Longrightarrow> s = c # r"
  by (auto simp: re_lit_def split: list.splits if_splits)

lemma re_spaces_elim: "r \<in> set (re_spaces s) \<Longrightarrow> \<exists>w c. s = w @ c # r \<and> is_space c"
proof (induction s)
  case Nil
  then show ?case by simp
next
  case (Cons a s)
  from Cons.prems have a: "is_space a" and r: "r \<in> set (re_spaces s) \<or> r = s"
    by (auto split: if_splits)
  from r show ?case
  proof
    assume "r \<in> set (re_spaces s)"
    with Cons.IH obtain w c where "s = w @ c # r" "is_space c" by blast
    then have "a # s = (a # w) @ c # r \<and> is_space c" by simp
    then show ?thesis by blast
  next
    assume "r = s"
    with a have "a # s = [] @ a # r \<and> is_space a" by simp
    then show ?thesis by blast
  qed
qed

lemma re_H_elim: "(v, r) \<in> set (re_H s) \<Longrightarrow> \<exists>u. s = u @ r \<and> hour_text u"
proof -
  assume "(v, r) \<in> set (re_H s)"
  then consider "(v, r) \<in> set (re_two 2 2 0 3 s)" | "(v, r) \<in> set (re_two 0 1 0 9 s)"
    | "(v, r) \<in> set (re_digit 0 9 s)"
    by (auto simp: re_H_def)
  then show ?thesis
  proof cases
    case 1
    from re_two_elim [OF 1] obtain c1 c2
      where "s = [c1, c2] @ r" "digit_val c1 = 2" "digit_val c2 \<le> 3" by auto
    then show ?thesis unfolding hour_text_def by blast
  next
    case 2
    from re_two_elim [OF 2] obtain c1 c2
      where "s = [c1, c2] @ r" "digit_val c1 \<le> 1" by auto
    then show ?thesis unfolding hour_text_def by blast
  next
    case 3
    from re_digit_elim [OF 3] obtain c where "s = [c] @ r" "is_digit c" by auto
    then show ?thesis unfolding hour_text_def by blast
  qed
qed

lemma re_M_elim: "(v, r) \<in> set (re_M s) \<Longrightarrow> \<exists>u. s = u @ r \<and> minute_text u"
proof -
  assume "(v, r) \<in> set (re_M s)"
  then consider "(v, r) \<in> set (re_two 0 5 0 9 s)" | "(v, r) \<in> set (re_digit 0 9 s)"
    by (auto simp: re_M_def)
  then show ?thesis
  proof cases
    case 1
    from re_two_elim [OF 1] obtain c1 c2 where "s = [c1, c2] @ r" "is_digit c1" by auto
    then show ?thesis unfolding minute_text_def by blast
  next
    case 2
    from re_digit_elim [OF 2] obtain c where "s = [c] @ r" "is_digit c" by auto
    then show ?thesis unfolding minute_text_def by blast
  qed
qed

lemma re_digit_prefix: "(v, r) \<in> set (re_digit lo hi s) \<Longrightarrow> \<exists>p. s = p @ r"
  by (metis append_Cons append_Nil re_digit_elim)

lemma re_two_prefix: "(v, r) \<in> set (re_two lo1 hi1 lo2 hi2 s) \<Longrightarrow> \<exists>p. s = p @ r"
  by (metis append_Cons append_Nil re_two_elim)

lemma re_lit_prefix: "r \<in> set (re_lit c s) \<Longrightarrow> \<exists>p. s = p @ r"
  by (metis append_Cons append_Nil re_lit_elim)

lemma prefix_trans: "\<exists>p. s = p @ r \<Longrightarrow> \<exists>p. r = p @ r' \<Longrightarrow> \<exists>p. s = p @ (r' :: string)"
  by (metis append.assoc)

lemma re_Y_prefix: "(v, r) \<in> set (re_Y s) \<Longrightarrow> \<exists>p. s = p @ r"
proof -
  assume "(v, r) \<in> set (re_Y s)"
  then obtain a b c d r1 r2 r3
    where "(a, r1) \<in> set (re_digit 0 9 s)" "(b, r2) \<in> set (re_digit 0 9 r1)"
      "(c, r3) \<in> set (re_digit 0 9 r2)" "(d, r) \<in> set (re_digit 0 9 r3)"
    by (auto simp: re_Y_def)
  then show ?thesis
    by (blast intro: prefix_trans dest: re_digit_prefix)
qed

lemma re_m_prefix: "(v, r) \<in> set (re_m s) \<Longrightarrow> \<exists>p. s = p @ r"
  by (auto simp: re_m_def dest: re_two_prefix re_digit_prefix)

lemma re_d_prefix: "(v, r) \<in> set (re_d s) \<Longrightarrow> \<exists>p. s = p @ r"
proof -
  assume "(v, r) \<in> set (re_d s)"
  then consider "(v, r) \<in> set (re_two 3 3 0 1 s)" | "(v, r) \<in> set (re_two 1 2 0 9 s)"
    | "(v, r) \<in> set (re_two 0 0 1 9 s)" | "(v, r) \<in> set (re_digit 1 9 s)"
    | r1 where "r1 \<in> set (re_lit CHR '' '' s)" "(v, r) \<in> set (re_digit 1 9 r1)"
    by (auto simp: re_d_def)
  then show ?thesis
    by cases (blast intro: prefix_trans dest: re_two_prefix re_digit_prefix re_lit_prefix)+
qed

lemma match_format_elim:
  assumes "(f, r) \<in> set (match_format s)"
  shows "\<exists>pre sp hs ms. s = pre @ sp # hs @ CHR '':'' # ms @ r \<and>
           is_space sp \<and> hour_text hs \<and> minute_text ms"
proof -
  from assms obtain y r1 r2 m r3 r4 d r5 r6 H r7 r8 M
    where "(y, r1) \<in> set (re_Y s)" "r2 \<in> set (re_lit CHR ''-'' r1)"
      "(m, r3) \<in> set (re_m r2)" "r4 \<in> set (re_lit CHR ''-'' r3)"
      "(d, r5) \<in> set (re_d r4)"
      and sp: "r6 \<in> set (re_spaces r5)"
      and H: "(H, r7) \<in> set (re_H r6)" and c: "r8 \<in> set (re_lit CHR '':'' r7)"
      and M: "(M, r) \<in> set (re_M r8)"
    by (auto simp: match_format_def)
  then have "\<exists>p. s = p @ r5"
    by (blast intro: prefix_trans dest: re_Y_prefix re_lit_prefix re_m_prefix re_d_prefix)
  then obtain p where p: "s = p @ r5" ..
  from re_spaces_elim [OF sp] obtain w c' where w: "r5 = w @ c' # r6" "is_space c'" by blast
  from re_H_elim [OF H] obtain hs where hs: "r6 = hs @ r7" "hour_text hs" by blast
  from re_lit_elim [OF c] have r7: "r7 = CHR '':'' # r8" .
  from re_M_elim [OF M] obtain ms where ms: "r8 = ms @ r" "minute_text ms" by blast
  have "s = (p @ w) @ c' # hs @ CHR '':'' # ms @ r"
    by (simp add: p w(1) hs(1) r7 ms(1))
  with w(2) hs(2) ms(2) show ?thesis by blast
qed

lemma hour_24_no_match:
  assumes "(f, r) \<in> set (match_format (date @ '' 24:0''))"
  shows "r \<noteq> []"
proof
  assume "r = []"
  with match_format_elim [OF assms] obtain pre sp hs ms
    where eq: "date @ '' 24:0'' = pre @ sp # hs @ CHR '':'' # ms"
      and sp: "is_space sp" and hs: "hour_text hs" and ms: "minute_text ms"
    by auto
  from eq have rv: "rev (date @ '' 24:0'') = rev (pre @ sp # hs @ CHR '':'' # ms)" by simp
  have nd: "\<not> is_digit CHR '':''" by (simp add: is_digit_def)
  have ns: "\<not> is_space CHR ''2''" by (simp add: is_space_def)
  have d2: "digit_val CHR ''2'' = 2" and d4: "digit_val CHR ''4'' = 4" by (simp_all add: digit_val_def)
  from ms rv nd have rv': "rev (date @ '' 24'') = rev (pre @ sp # hs)"
    by (auto simp: minute_text_def)
  from hs rv' sp ns d2 d4 show False
    by (auto simp: hour_text_def)
qed

lemma to_datetime_hour_24: "to_datetime (date @ '' 24:0'') = Inl ValueError"
proof (cases "match_format (date @ '' 24:0'')")
  case Nil
  then show ?thesis by (simp add: to_datetime_def)
next
  case (Cons a as)
  obtain f r where a: "a = (f, r)" by (cases a)
  with Cons have "(f, r) \<in> set (match_format (date @ '' 24:0''))" by simp
  then have "r \<noteq> []" by (rule hour_24_no_match)
  with Cons a show ?thesis by (simp add: to_datetime_def)
qed

lemma str_int_24: "str_int 24 = ''24''"
  by code_simp

lemma str_int_0: "str_int 0 = ''0''"
  by code_simp

lemma load_data_Inr:
  assumes "load_data to_ts (Some cols) = Inr t"
  shows "file_timestamps to_ts cols = Some (tindex t)"
  using assms
  by (auto simp: load_data_def read_csv_def getitem_def to_datetime_column_def set_index_def
      file_timestamps_def split: option.splits)

lemma sorted_hd_Min: "sorted xs \<Longrightarrow> xs \<noteq> [] \<Longrightarrow> hd xs = Min (set (xs :: ('t::linorder) list))"
  by (cases xs) (auto intro!: Min_eqI [symmetric])

lemma sorted_last_Max: "sorted xs \<Longrightarrow> xs \<noteq> [] \<Longrightarrow> last xs = Max (set (xs :: ('t::linorder) list))"
proof -
  assume s: "sorted xs" and n: "xs \<noteq> []"
  have "y \<le> last xs" if "y \<in> set xs" for y
  proof -
    from that obtain i where "i < length xs" "y = xs ! i" by (auto simp: in_set_conv_nth)
    with s n show ?thesis
      by (simp add: last_conv_nth sorted_nth_mono)
  qed
  with n show ?thesis by (intro Max_eqI [symmetric]) auto
qed

lemma sorted_dropWhile_key:
  "sorted (map k xs) \<Longrightarrow>
     dropWhile (\<lambda>x. k x < l) xs = filter (\<lambda>x. l \<le> (k x :: 't::linorder)) xs"
proof (induction xs)
  case Nil
  then show ?case by simp
next
  case (Cons x xs)
  show ?case
  proof (cases "k x < l")
    case True
    with Cons show ?thesis by simp
  next
    case False
    with Cons.prems have "\<forall>y\<in>set xs. l \<le> k y" by auto
    then have "filter (\<lambda>x. l \<le> k x) xs = xs" by simp
    with False show ?thesis by simp
  qed
qed

lemma drop_bound_column:
  assumes "sorted idx" and "length ys = length idx"
  shows "drop (length (takeWhile (\<lambda>x. x < s) idx)) ys = rows_from s idx ys"
proof -
  let ?zs = "zip idx ys"
  from assms(2) have i: "idx = map fst ?zs" and y: "ys = map snd ?zs" by simp_all
  have tw: "takeWhile (\<lambda>x. x < s) (map fst ?zs) = map fst (takeWhile (\<lambda>p. fst p < s) ?zs)"
    by (simp add: takeWhile_map comp_def)
  have "drop (length (takeWhile (\<lambda>x. x < s) idx)) ys =
        map snd (drop (length (takeWhile (\<lambda>p. fst p < s) ?zs)) ?zs)"
    by (subst i, subst tw, subst y) (simp add: drop_map)
  also have "\<dots> = map snd (dropWhile (\<lambda>p. fst p < s) ?zs)"
    by (simp add: dropWhile_eq_drop)
  also have "\<dots> = map snd (filter (\<lambda>p. s \<le> fst p) ?zs)"
    using assms(1) i by (subst sorted_dropWhile_key [where k = fst]) simp_all
  finally show ?thesis by (simp add: rows_from_def)
qed

lemma length_rows_from_column:
  assumes "sorted idx" and "length ys = length idx"
  shows "length (rows_from s idx ys) = length (filter (\<lambda>x. s \<le> x) idx)"
  using drop_bound_column [OF assms, of s, symmetric] length_rows_from [OF assms(1), of s] assms(2)
  by simp

lemma take_slice_stop:
  "h < 120 \<Longrightarrow> length xs = n \<Longrightarrow> take (slice_stop n (- (120 - h))) xs = drop_last (nat (120 - h)) xs"
  by (auto simp: slice_stop_def drop_last_def max_def intro!: arg_cong2 [where f = take])

lemma layout_figure_of: "fig_layout (figure_of xs y1 y2 y3 y4) = chart_layout"
  by (simp add: figure_of_def update_layout_def Figure_def empty_layout_def style_legend_def
      style_colors_def update_xaxes_def update_yaxes_def chart_layout_def)

lemma column_length:
  "aligned t \<Longrightarrow> column t c = Inr ys \<Longrightarrow> length ys = length (tindex t)"
  using column_aligned [of t c] column_Inr_has [of t c ys] by auto

lemma trace_fields:
  "map sc_name [trace_observed xs y1, trace_forecast xs y2, trace_upper xs y3, trace_lower xs y4] =
     [name_observed, name_forecast, ''Upper Bound'', ''Lower Bound'']"
  "map sc_x [trace_observed xs y1, trace_forecast xs y2, trace_upper xs y3, trace_lower xs y4] =
     [xs, xs, xs, xs]"
  "map sc_y [trace_observed xs y1, trace_forecast xs y2, trace_upper xs y3, trace_lower xs y4] =
     [y1, y2, y3, y4]"
  "map sc_mode [trace_observed xs y1, trace_forecast xs y2, trace_upper xs y3, trace_lower xs y4] =
     [Some ''lines'', Some ''lines'', Some ''lines'', Some ''lines'']"
  "map sc_line_color [trace_observed xs y1, trace_forecast xs y2, trace_upper xs y3, trace_lower xs y4] =
     [Some ''#188463'', Some ''#bbffeb'', None, None]"
  "map sc_line_width [trace_observed xs y1, trace_forecast xs y2, trace_upper xs y3, trace_lower xs y4] =
     [None, None, Some 0, Some 0]"
  "map sc_marker_color [trace_observed xs y1, trace_forecast xs y2, trace_upper xs y3, trace_lower xs y4] =
     [None, None, Some ''#444'', Some ''#444'']"
  "map sc_showlegend [trace_observed xs y1, trace_forecast xs y2, trace_upper xs y3, trace_lower xs y4] =
     [None, None, Some False, Some False]"
  "map sc_fill [trace_observed xs y1, trace_forecast xs y2, trace_upper xs y3, trace_lower xs y4] =
     [None, None, None, Some ''tonexty'']"
  "map sc_fillcolor [trace_observed xs y1, trace_forecast xs y2, trace_upper xs y3, trace_lower xs y4] =
     [None, None, None, Some ''rgba(242, 255, 251, 0.3)'']"
  by (simp_all add: trace_observed_def trace_forecast_def trace_upper_def trace_lower_def Scatter_def)

lemma demo_columns:
  "column (demo_table n) col_observed = Inr (map (\<lambda>i. 5000 + int i) [0..<n])"
  "column (demo_table n) col_forecast = Inr (map (\<lambda>i. 5100 + int i) [0..<n])"
  "column (demo_table n) col_upper = Inr (map (\<lambda>i. 5200 + int i) [0..<n])"
  "column (demo_table n) col_lower = Inr (map (\<lambda>i. 4900 + int i) [0..<n])"
  by (simp_all add: column_def demo_table_def col_observed_def col_forecast_def col_upper_def
        col_lower_def)

text \<open>The format and the callback on inputs that are complete and valid.\<close>

lemma to_datetime_example: "to_datetime ''2021-01-20 7:0'' = Inr 1611126000000000000"
  by code_simp

lemma to_datetime_epoch: "to_datetime ''1970-01-01 0:0'' = Inr 0"
  by code_simp

lemma callback_example:
  "update_output_div (demo_table 5) (Some ''1970-01-01'') (Some 0) (Some 119) =
     ([(0, 119)],
      Inr (Some (figure_of [0, 1, 2, 3] [5000, 5001, 5002, 5003] [5100, 5101, 5102, 5103]
        [5200, 5201, 5202, 5203] [4900, 4901, 4902, 4903])))"
proof -
  have n: "filter (\<lambda>x. 0 \<le> x) (tindex (demo_table 5)) = [0, 1, 2, 3, 4]"
    by (simp add: demo_table_def upt_rec)
  have i: "takeWhile (\<lambda>x. x < 0) (tindex (demo_table 5)) = []"
    by (simp add: demo_table_def upt_rec)
  have k: "slice_stop (Suc (Suc (Suc (Suc (Suc 0))))) (- 1) = Suc (Suc (Suc (Suc 0)))"
    by (simp add: slice_stop_def)
  have p: "plot_series (demo_table 5) (Stamp 0) 119 =
     Inr (figure_of [0, 1, 2, 3] [5000, 5001, 5002, 5003] [5100, 5101, 5102, 5103]
        [5200, 5201, 5202, 5203] [4900, 4901, 4902, 4903])"
    unfolding plot_series_sorted [OF sorted_demo demo_columns] n i
    by (simp add: demo_table_def k upt_rec)
  show ?thesis
    using to_datetime_epoch by (simp add: update_output_div_def str_int_0 p)
qed

text \<open>An input that is missing: no call of \<open>plot_series\<close>, no exception, \<open>None\<close> returned.\<close>

lemma incomplete_input_returns_None:
  assumes "date = None \<or> hour = None \<or> proy = None"
  shows "update_output_div data date hour proy = ([], Inr None)"
  using assms by (auto simp: update_output_div_def split: option.splits)

section \<open>The claims\<close>

text \<open>
  A table, in the claims, is a time series table of the data model: its index is
  ascending (\<open>sorted\<close>) and each column has one value per index entry
  (\<open>aligned\<close>). A start, in the claims about the rows from the start on, is a
  timestamp of the index's resolution and time zone, \<open>Stamp s\<close>, as every timestamp
  in or between the bounds of the index is. The points from the start to the end of the
  table are the index entries \<open>x\<close> with \<open>s \<le> x\<close>.
\<close>

text \<open>
  Claim C1. For a horizon \<open>h\<close> in \<open>[0, 119]\<close> and a start with at least 120
  points from it to the end of the table, \<open>plot_series\<close> returns a figure whose four
  series all have \<open>k\<close> x values and \<open>k\<close> y values, where \<open>k\<close> is the number
  of points from the start to the end of the table minus \<open>120 - h\<close>. So \<open>h = 119\<close>
  removes one record from the end of the selected rows, and \<open>h = 0\<close> removes 120.
\<close>

theorem series_length_formula:
  assumes "sorted (tindex t)" and "aligned t" and "has_required t"
    and "0 \<le> h" and "h \<le> 119"
    and "120 \<le> length (filter (\<lambda>x. s \<le> x) (tindex t))"
  shows "\<exists>fig k. plot_series t (Stamp s) h = Inr fig \<and>
           series_lengths fig = [(k, k), (k, k), (k, k), (k, k)] \<and>
           int k = int (length (filter (\<lambda>x. s \<le> x) (tindex t))) - (120 - h)"
proof -
  let ?n = "length (filter (\<lambda>x. s \<le> x) (tindex t))"
  from series_lengths_sorted [OF assms(1-3) refl, of s h] obtain fig
    where fig: "plot_series t (Stamp s) h = Inr fig"
      "series_lengths fig = [(slice_stop ?n (- (120 - h)), slice_stop ?n (- (120 - h))),
         (slice_stop ?n (- (120 - h)), slice_stop ?n (- (120 - h))),
         (slice_stop ?n (- (120 - h)), slice_stop ?n (- (120 - h))),
         (slice_stop ?n (- (120 - h)), slice_stop ?n (- (120 - h)))]"
    by blast
  have "int (slice_stop ?n (- (120 - h))) = int ?n - (120 - h)"
    using assms(4-6) by (simp add: slice_stop_def)
  with fig show ?thesis by blast
qed

theorem series_length_formula_witness:
  "(\<exists>fig. plot_series (demo_table 125) (Stamp 3) 119 = Inr fig \<and>
          series_lengths fig = [(121, 121), (121, 121), (121, 121), (121, 121)]) \<and>
   (\<exists>fig. plot_series (demo_table 125) (Stamp 3) 0 = Inr fig \<and>
          series_lengths fig = [(2, 2), (2, 2), (2, 2), (2, 2)])"
proof -
  have n: "length (filter (\<lambda>x. 3 \<le> x) (tindex (demo_table 125))) = 122"
    using rows_from_demo [of 3 125] by simp
  from series_length_formula [of "demo_table 125" 119 3, OF sorted_demo aligned_demo has_required_demo]
  obtain fig k where "plot_series (demo_table 125) (Stamp 3) 119 = Inr fig"
    and "series_lengths fig = [(k, k), (k, k), (k, k), (k, k)]"
    and "int k = int (length (filter (\<lambda>x. 3 \<le> x) (tindex (demo_table 125)))) - (120 - 119)"
    unfolding n by auto
  then have a: "\<exists>fig. plot_series (demo_table 125) (Stamp 3) 119 = Inr fig \<and>
          series_lengths fig = [(121, 121), (121, 121), (121, 121), (121, 121)]"
    unfolding n by auto
  from series_length_formula [of "demo_table 125" 0 3, OF sorted_demo aligned_demo has_required_demo]
  obtain fig k where "plot_series (demo_table 125) (Stamp 3) 0 = Inr fig"
    and "series_lengths fig = [(k, k), (k, k), (k, k), (k, k)]"
    and "int k = int (length (filter (\<lambda>x. 3 \<le> x) (tindex (demo_table 125)))) - (120 - 0)"
    unfolding n by auto
  then have b: "\<exists>fig. plot_series (demo_table 125) (Stamp 3) 0 = Inr fig \<and>
          series_lengths fig = [(2, 2), (2, 2), (2, 2), (2, 2)]"
    unfolding n by auto
  from a b show ?thesis ..
qed

text \<open>
  Claim C2, as stated, for every table and start: a horizon greater by one gives
  series longer by one. It fails where fewer than \<open>120 - h\<close> points lie at or after
  the start: on a table of five rows the horizons 0 and 1 both give the empty chart.
\<close>

theorem horizon_step_counterexample:
  "plot_series (demo_table 5) (Stamp 0) 0 = Inr (figure_of [] [] [] [] []) \<and>
   plot_series (demo_table 5) (Stamp 0) 1 = Inr (figure_of [] [] [] [] []) \<and>
   series_lengths (figure_of [] [] [] [] [] :: (int, int) figure) = [(0, 0), (0, 0), (0, 0), (0, 0)]"
proof -
  have c: "column (demo_table 5) col_observed = Inr (map (\<lambda>i. 5000 + int i) [0..<5])"
    "column (demo_table 5) col_forecast = Inr (map (\<lambda>i. 5100 + int i) [0..<5])"
    "column (demo_table 5) col_upper = Inr (map (\<lambda>i. 5200 + int i) [0..<5])"
    "column (demo_table 5) col_lower = Inr (map (\<lambda>i. 4900 + int i) [0..<5])"
    by (simp_all add: column_def demo_table_def col_observed_def col_forecast_def col_upper_def
        col_lower_def)
  have n: "length (filter (\<lambda>x. 0 \<le> x) (tindex (demo_table 5))) = 5"
    using rows_from_demo [of 0 5] by simp
  have k: "slice_stop 5 (- (120 - 0)) = 0" "slice_stop 5 (- (120 - 1)) = 0"
    by (simp_all add: slice_stop_def)
  show ?thesis
    unfolding plot_series_sorted [OF sorted_demo c] n k
    by (simp add: series_lengths_figure_of)
qed

text \<open>
  Claim C2, amended: when at least \<open>120 - h\<close> points lie at or after the start (and
  \<open>h\<close> and \<open>h + 1\<close> are in \<open>[0, 119]\<close>), every series of the chart for
  \<open>h + 1\<close> is exactly one longer than the series of the chart for \<open>h\<close>.
\<close>

theorem horizon_step:
  assumes "sorted (tindex t)" and "aligned t" and "has_required t"
    and "0 \<le> h" and "h + 1 \<le> 119"
    and "120 - h \<le> int (length (filter (\<lambda>x. s \<le> x) (tindex t)))"
  shows "\<exists>fig fig' k. plot_series t (Stamp s) h = Inr fig \<and> plot_series t (Stamp s) (h + 1) = Inr fig' \<and>
           series_lengths fig = [(k, k), (k, k), (k, k), (k, k)] \<and>
           series_lengths fig' = [(k + 1, k + 1), (k + 1, k + 1), (k + 1, k + 1), (k + 1, k + 1)]"
proof -
  let ?n = "length (filter (\<lambda>x. s \<le> x) (tindex t))"
  define k where "k = slice_stop ?n (- (120 - h))"
  have k': "k + 1 = slice_stop ?n (- (120 - (h + 1)))"
    using assms(4-6) by (simp add: k_def slice_stop_def)
  from series_lengths_sorted [OF assms(1-3) k_def] obtain fig
    where "plot_series t (Stamp s) h = Inr fig" "series_lengths fig = [(k, k), (k, k), (k, k), (k, k)]"
    by blast
  moreover from series_lengths_sorted [OF assms(1-3) k'] obtain fig'
    where "plot_series t (Stamp s) (h + 1) = Inr fig'"
      "series_lengths fig' = [(k + 1, k + 1), (k + 1, k + 1), (k + 1, k + 1), (k + 1, k + 1)]"
    by blast
  ultimately show ?thesis by blast
qed

theorem horizon_step_witness:
  "\<exists>fig fig' k. plot_series (demo_table 125) (Stamp 3) 7 = Inr fig \<and> plot_series (demo_table 125) (Stamp 3) 8 = Inr fig' \<and>
           series_lengths fig = [(k, k), (k, k), (k, k), (k, k)] \<and>
           series_lengths fig' = [(k + 1, k + 1), (k + 1, k + 1), (k + 1, k + 1), (k + 1, k + 1)]"
proof -
  have n: "length (filter (\<lambda>x. 3 \<le> x) (tindex (demo_table 125))) = 122"
    using rows_from_demo [of 3 125] by simp
  show ?thesis
    using horizon_step [of "demo_table 125" 7 3, OF sorted_demo aligned_demo has_required_demo]
    unfolding n by simp
qed

text \<open>
  Claim C3. When the date, the hour or the horizon is \<open>None\<close>, the callback makes
  no call of \<open>plot_series\<close> and raises nothing (lemma
  \<open>incomplete_input_returns_None\<close>). But it returns \<open>None\<close>, and that becomes
  the figure of the graph: the chart shown before does not remain. On the example
  table, the date 1970-01-01, the hour 0 and the horizon 119 give a chart of four
  points; when the hour is then cleared, the callback makes no call of
  \<open>plot_series\<close>, returns \<open>None\<close>, and the figure of the graph is \<open>None\<close>
  instead of that chart. The docstring of \<open>update_output_div\<close> says that Dash will
  keep the earlier figure.
\<close>

theorem incomplete_input_replaces_figure:
  "update_output_div (demo_table 5) (Some ''1970-01-01'') (Some 0) (Some 119) =
     ([(0, 119)],
      Inr (Some (figure_of [0, 1, 2, 3] [5000, 5001, 5002, 5003] [5100, 5101, 5102, 5103]
        [5200, 5201, 5202, 5203] [4900, 4901, 4902, 4903]))) \<and>
   update_output_div (demo_table 5) (Some ''1970-01-01'') None (Some 119) = ([], Inr None) \<and>
   figure_after
     (Some (figure_of [0, 1, 2, 3] [5000, 5001, 5002, 5003] [5100, 5101, 5102, 5103]
        [5200, 5201, 5202, 5203] [4900, 4901, 4902, 4903]))
     (snd (update_output_div (demo_table 5) (Some ''1970-01-01'') None (Some 119))) = None"
  by (simp add: callback_example incomplete_input_returns_None figure_after_def)

text \<open>
  Claim C4. On a table without the column \<open>Lower bound\<close>, for any start (any label
  \<open>l\<close>, also one that the index cannot express) and any horizon, \<open>plot_series\<close>
  returns no figure: it raises \<open>KeyError\<close>. For a start \<open>Stamp s\<close> on an
  ascending index the key of the error is a required column that the table lacks (the
  first one that \<open>plot_series\<close> reads).
\<close>

theorem missing_lower_bound:
  assumes "\<not> has_column t col_lower"
  shows "(\<exists>k. plot_series t l h = Inl (KeyError k)) \<and>
         (\<exists>k. plot_series t (Stamp s) h = Inl (KeyError k) \<and>
           (sorted (tindex t) \<longrightarrow>
              (\<exists>c. k = ColumnKey c \<and> c \<in> set required_columns \<and> \<not> has_column t c)))"
proof -
  have raises: "\<exists>e. plot_series t l' h = Inl e" for l'
  proof (cases "plot_series t l' h")
    case (Inl e)
    then show ?thesis by blast
  next
    case (Inr fig)
    with assms show ?thesis by (blast dest: plot_series_needs_lower)
  qed
  from raises [of l] obtain e where e: "plot_series t l h = Inl e" ..
  from plot_series_Inl [OF e] e have a: "\<exists>k. plot_series t l h = Inl (KeyError k)" by auto
  from raises [of "Stamp s"] obtain e' where e': "plot_series t (Stamp s) h = Inl e'" ..
  from plot_series_Inl [OF e'] e'
  have b: "\<exists>k. plot_series t (Stamp s) h = Inl (KeyError k) \<and>
           (sorted (tindex t) \<longrightarrow>
              (\<exists>c. k = ColumnKey c \<and> c \<in> set required_columns \<and> \<not> has_column t c))"
    by auto
  from a b show ?thesis ..
qed

theorem missing_lower_bound_witness:
  "plot_series (demo_no_lower 125) (Stamp 3) 7 = Inl (KeyError (ColumnKey ''Lower bound''))"
proof -
  have s: "sorted (tindex (demo_no_lower 125))"
    using sorted_demo [of 125] by (simp add: demo_no_lower_def)
  have h: "has_column (demo_no_lower 125) c \<longleftrightarrow> c \<in> {col_observed, col_forecast, col_upper}" for c
    by (auto simp: demo_no_lower_def demo_table_def has_column_def)
  have n: "\<not> has_column (demo_no_lower 125) col_lower"
    by (simp add: h col_observed_def col_forecast_def col_upper_def col_lower_def)
  from missing_lower_bound [OF n, of "Stamp 3" 7 3] s
  obtain c where "plot_series (demo_no_lower 125) (Stamp 3) 7 = Inl (KeyError (ColumnKey c))"
    and "c \<in> set required_columns" and "\<not> has_column (demo_no_lower 125) c"
    by blast
  then show ?thesis
    by (auto simp: h required_columns_def col_lower_def)
qed

text \<open>
  Claim C5. Whenever \<open>plot_series\<close> returns a figure, its four series have the same
  sequence of x values.
\<close>

theorem shared_x_values:
  assumes "plot_series t s h = Inr fig"
  shows "\<exists>xs. map sc_x (fig_data fig) = [xs, xs, xs, xs]"
proof -
  from plot_series_Inr [OF assms] obtain xs y1 y2 y3 y4
    where "fig = figure_of xs y1 y2 y3 y4" by blast
  then have "map sc_x (fig_data fig) = [xs, xs, xs, xs]"
    by (simp add: fig_data_figure_of trace_observed_def trace_forecast_def trace_upper_def
        trace_lower_def Scatter_def)
  then show ?thesis ..
qed

theorem shared_x_values_witness:
  "\<exists>fig xs. plot_series (demo_table 125) (Stamp 3) 7 = Inr fig \<and> map sc_x (fig_data fig) = [xs, xs, xs, xs]"
proof -
  from series_lengths_sorted [OF sorted_demo aligned_demo has_required_demo refl, of 125 3 7]
  obtain fig where fig: "plot_series (demo_table 125) (Stamp 3) 7 = Inr fig" by blast
  from shared_x_values [OF fig] obtain xs where "map sc_x (fig_data fig) = [xs, xs, xs, xs]" ..
  with fig show ?thesis by (intro exI conjI)
qed

text \<open>
  Claim C6, as stated, for every source file: the first and last index entry of the
  loaded table are the least and greatest timestamp of the file. It fails on a file
  whose rows are out of order, since the loader keeps the order of the rows: the
  timestamps 2, 3, 1 load with first entry 2 and last entry 1, and the least is 1 and
  the greatest 3.
\<close>

theorem load_round_trip_counterexample:
  "load_data Some (Some shuffled_file) =
     Inr \<lparr>tindex = [2, 3, 1],
          tcolumns = [(col_observed, [5002, 5003, 5001]), (col_forecast, [5102, 5103, 5101]),
                      (col_upper, [5202, 5203, 5201]), (col_lower, [4902, 4903, 4901])]\<rparr> \<and>
   first_timestamp \<lparr>tindex = [2, 3, 1 :: int],
          tcolumns = [(col_observed, [5002, 5003, 5001 :: int]), (col_forecast, [5102, 5103, 5101]),
                      (col_upper, [5202, 5203, 5201]), (col_lower, [4902, 4903, 4901])]\<rparr> = Some 2 \<and>
   last_timestamp \<lparr>tindex = [2, 3, 1 :: int],
          tcolumns = [(col_observed, [5002, 5003, 5001 :: int]), (col_forecast, [5102, 5103, 5101]),
                      (col_upper, [5202, 5203, 5201]), (col_lower, [4902, 4903, 4901])]\<rparr> = Some 1 \<and>
   file_timestamps Some shuffled_file = Some [2, 3, 1] \<and>
   Min (set [2, 3, 1 :: int]) = 1 \<and> Max (set [2, 3, 1 :: int]) = 3"
  by (simp add: load_data_def read_csv_def getitem_def to_datetime_column_def set_index_def
      shuffled_file_def file_timestamps_def first_timestamp_def last_timestamp_def
      col_observed_def col_forecast_def col_upper_def col_lower_def)

text \<open>
  Claim C6, amended: for every source file with at least one row whose timestamps are
  in ascending order, the first and last index entry of the loaded table are the least
  and greatest timestamp of the file.
\<close>

theorem load_round_trip:
  assumes "load_data to_ts (Some cols) = Inr t"
    and "file_timestamps to_ts cols = Some ts"
    and "sorted ts" and "ts \<noteq> []"
  shows "first_timestamp t = Some (Min (set ts)) \<and> last_timestamp t = Some (Max (set ts))"
proof -
  from load_data_Inr [OF assms(1)] assms(2) have ts: "tindex t = ts" by simp
  from assms(4) have "first_timestamp t = Some (hd ts)"
    by (cases ts) (simp_all add: first_timestamp_def ts)
  moreover from assms(4) have "last_timestamp t = Some (last ts)"
    by (simp add: last_timestamp_def ts)
  ultimately show ?thesis
    using sorted_hd_Min [OF assms(3,4)] sorted_last_Max [OF assms(3,4)] by simp
qed

theorem load_round_trip_witness:
  "first_timestamp \<lparr>tindex = [1, 2, 3 :: int],
          tcolumns = [(col_observed, [5001, 5002, 5003 :: int]), (col_forecast, [5101, 5102, 5103]),
                      (col_upper, [5201, 5202, 5203]), (col_lower, [4901, 4902, 4903])]\<rparr> =
     Some (Min (set [1, 2, 3])) \<and>
   last_timestamp \<lparr>tindex = [1, 2, 3 :: int],
          tcolumns = [(col_observed, [5001, 5002, 5003 :: int]), (col_forecast, [5101, 5102, 5103]),
                      (col_upper, [5201, 5202, 5203]), (col_lower, [4901, 4902, 4903])]\<rparr> =
     Some (Max (set [1, 2, 3]))"
proof -
  have l: "load_data Some (Some ordered_file) =
     Inr \<lparr>tindex = [1, 2, 3 :: int],
          tcolumns = [(col_observed, [5001, 5002, 5003 :: int]), (col_forecast, [5101, 5102, 5103]),
                      (col_upper, [5201, 5202, 5203]), (col_lower, [4901, 4902, 4903])]\<rparr>"
    by (simp add: load_data_def read_csv_def getitem_def to_datetime_column_def set_index_def
      ordered_file_def col_observed_def col_forecast_def col_upper_def col_lower_def)
  have f: "file_timestamps Some ordered_file = Some [1, 2, 3 :: int]"
    by (simp add: file_timestamps_def ordered_file_def)
  show ?thesis
    by (rule load_round_trip [OF l f]) simp_all
qed

text \<open>
  Claim C7. On a table with the four columns and a horizon in \<open>[0, 119]\<close> the
  figure has exactly four traces, in this order: the observed demand, a line of colour
  \<open>#188463\<close>; the forecast, a line of the pale colour \<open>#bbffeb\<close>; the upper bound,
  a line of width 0 without legend entry; the lower bound, a line of width 0 without
  legend entry, filled to the trace before it (\<open>tonexty\<close>). Their x values are the
  index entries from the start on without the last \<open>120 - h\<close>, their y values the
  values of their columns at these entries. The legend is horizontal, anchored with its
  bottom right corner above the top right of the plot, both backgrounds are
  transparent, hovering is by x, both axes show their grid, and the y axis is titled
  \<open>Demanda total [MW]\<close>.
\<close>

theorem chart_content:
  assumes "sorted (tindex t)" and "aligned t"
    and "column t col_observed = Inr c1" and "column t col_forecast = Inr c2"
    and "column t col_upper = Inr c3" and "column t col_lower = Inr c4"
    and "0 \<le> h" and "h \<le> 119"
  shows "\<exists>fig. plot_series t (Stamp s) h = Inr fig \<and>
     map sc_name (fig_data fig) = [name_observed, name_forecast, ''Upper Bound'', ''Lower Bound''] \<and>
     map sc_x (fig_data fig) =
       replicate 4 (drop_last (nat (120 - h)) (filter (\<lambda>x. s \<le> x) (tindex t))) \<and>
     map sc_y (fig_data fig) =
       map (\<lambda>c. drop_last (nat (120 - h)) (rows_from s (tindex t) c)) [c1, c2, c3, c4] \<and>
     map sc_mode (fig_data fig) = [Some ''lines'', Some ''lines'', Some ''lines'', Some ''lines''] \<and>
     map sc_line_color (fig_data fig) = [Some ''#188463'', Some ''#bbffeb'', None, None] \<and>
     map sc_line_width (fig_data fig) = [None, None, Some 0, Some 0] \<and>
     map sc_marker_color (fig_data fig) = [None, None, Some ''#444'', Some ''#444''] \<and>
     map sc_showlegend (fig_data fig) = [None, None, Some False, Some False] \<and>
     map sc_fill (fig_data fig) = [None, None, None, Some ''tonexty''] \<and>
     map sc_fillcolor (fig_data fig) = [None, None, None, Some ''rgba(242, 255, 251, 0.3)''] \<and>
     fig_layout fig = chart_layout"
proof -
  let ?idx = "tindex t"
  let ?n = "length (filter (\<lambda>x. s \<le> x) ?idx)"
  let ?i = "length (takeWhile (\<lambda>x. x < s) ?idx)"
  let ?k = "slice_stop ?n (- (120 - h))"
  let ?d = "nat (120 - h)"
  from assms(8) have h: "h < 120" by simp
  have x: "take ?k (filter (\<lambda>x. s \<le> x) ?idx) = drop_last ?d (filter (\<lambda>x. s \<le> x) ?idx)"
    using h by (rule take_slice_stop) simp
  have y: "take ?k (drop ?i c) = drop_last ?d (rows_from s ?idx c)"
    if "column t col = Inr c" for col and c :: "'b list"
  proof -
    from column_length [OF assms(2) that] have l: "length c = length ?idx" .
    have "take ?k (drop ?i c) = take ?k (rows_from s ?idx c)"
      by (simp only: drop_bound_column [OF assms(1) l])
    also have "\<dots> = drop_last ?d (rows_from s ?idx c)"
      using h by (rule take_slice_stop) (rule length_rows_from_column [OF assms(1) l])
    finally show ?thesis .
  qed
  let ?fig = "figure_of (drop_last ?d (filter (\<lambda>x. s \<le> x) ?idx))
     (drop_last ?d (rows_from s ?idx c1)) (drop_last ?d (rows_from s ?idx c2))
     (drop_last ?d (rows_from s ?idx c3)) (drop_last ?d (rows_from s ?idx c4))"
  have p: "plot_series t (Stamp s) h = Inr ?fig"
    unfolding plot_series_sorted [OF assms(1,3-6)] x y [OF assms(3)] y [OF assms(4)]
      y [OF assms(5)] y [OF assms(6)] ..
  show ?thesis
    apply (rule exI [of _ ?fig])
    apply (simp only: p fig_data_figure_of trace_fields layout_figure_of)
    apply (simp add: numeral_eq_Suc)
    done
qed

theorem chart_content_witness:
  "\<exists>fig. plot_series (demo_table 125) (Stamp 3) 119 = Inr fig \<and>
     map sc_name (fig_data fig) = [name_observed, name_forecast, ''Upper Bound'', ''Lower Bound''] \<and>
     map sc_x (fig_data fig) =
       replicate 4 (drop_last 1 (filter (\<lambda>x. 3 \<le> x) (tindex (demo_table 125)))) \<and>
     map sc_y (fig_data fig) =
       map (\<lambda>c. drop_last 1 (rows_from 3 (tindex (demo_table 125)) c))
         [map (\<lambda>i. 5000 + int i) [0..<125], map (\<lambda>i. 5100 + int i) [0..<125],
          map (\<lambda>i. 5200 + int i) [0..<125], map (\<lambda>i. 4900 + int i) [0..<125]] \<and>
     map sc_mode (fig_data fig) = [Some ''lines'', Some ''lines'', Some ''lines'', Some ''lines''] \<and>
     map sc_line_color (fig_data fig) = [Some ''#188463'', Some ''#bbffeb'', None, None] \<and>
     map sc_line_width (fig_data fig) = [None, None, Some 0, Some 0] \<and>
     map sc_marker_color (fig_data fig) = [None, None, Some ''#444'', Some ''#444''] \<and>
     map sc_showlegend (fig_data fig) = [None, None, Some False, Some False] \<and>
     map sc_fill (fig_data fig) = [None, None, None, Some ''tonexty''] \<and>
     map sc_fillcolor (fig_data fig) = [None, None, None, Some ''rgba(242, 255, 251, 0.3)''] \<and>
     fig_layout fig = chart_layout"
  using chart_content [of "demo_table 125" _ _ _ _ 119 3, OF sorted_demo aligned_demo demo_columns]
  by simp

text \<open>
  Claim C9, as stated, for every table with the four columns and every start:
  \<open>plot_series\<close> never raises. It fails in two ways. On an ascending index a start
  outside the range of the index's resolution raises \<open>KeyError\<close>; and on an index
  that is not ascending (here 2, 3, 1) a start that is not in the index (here 0) raises
  \<open>KeyError\<close>. Both tables have the four columns.
\<close>

theorem slicing_total_counterexample:
  "has_required (demo_table 30) \<and> sorted (tindex (demo_table 30)) \<and>
   plot_series (demo_table 30) OutOfRange 119 = Inl (KeyError (LabelKey OutOfRange)) \<and>
   has_required demo_unsorted \<and>
   plot_series demo_unsorted (Stamp 0) 119 = Inl (KeyError (LabelKey (Stamp 0)))"
proof -
  have "plot_series (demo_table 30) OutOfRange 119 = Inl (KeyError (LabelKey OutOfRange))"
    by (simp add: plot_series_unfold get_slice_bound_left_OutOfRange)
  moreover have "has_required demo_unsorted"
    by (simp add: has_required_def required_columns_def has_column_def demo_unsorted_def)
  moreover have "get_slice_bound_left (tindex demo_unsorted) (Stamp 0) = Inl (KeyError (LabelKey (Stamp 0)))"
    by (simp add: get_slice_bound_left_def demo_unsorted_def)
  then have "plot_series demo_unsorted (Stamp 0) 119 = Inl (KeyError (LabelKey (Stamp 0)))"
    by (simp add: plot_series_unfold)
  ultimately show ?thesis
    using has_required_demo [of 30] sorted_demo [of 30] by simp
qed

text \<open>
  Claim C9, amended: on a table with an ascending index and the four columns, for any
  start that the index's resolution can express (also one after the last index entry)
  and a horizon \<open>h\<close> in \<open>[0, 119]\<close>, \<open>plot_series\<close> raises nothing and returns
  a figure whose series have a length \<open>k\<close>, a natural number; when at most
  \<open>120 - h\<close> points lie at or after the start, \<open>k = 0\<close>: all four series are
  empty.
\<close>

theorem slicing_total:
  assumes "sorted (tindex t)" and "aligned t" and "has_required t"
    and "0 \<le> h" and "h \<le> 119"
  shows "\<exists>fig k. plot_series t (Stamp s) h = Inr fig \<and>
           series_lengths fig = [(k, k), (k, k), (k, k), (k, k)] \<and>
           (int (length (filter (\<lambda>x. s \<le> x) (tindex t))) \<le> 120 - h \<longrightarrow> k = 0)"
proof -
  let ?n = "length (filter (\<lambda>x. s \<le> x) (tindex t))"
  define k where "k = slice_stop ?n (- (120 - h))"
  have "int ?n \<le> 120 - h \<longrightarrow> k = 0"
    using assms(4,5) by (simp add: k_def slice_stop_def)
  with series_lengths_sorted [OF assms(1-3) k_def] show ?thesis by blast
qed

theorem slicing_total_witness:
  "\<exists>fig. plot_series (demo_table 30) (Stamp 100) 119 = Inr fig \<and>
         series_lengths fig = [(0, 0), (0, 0), (0, 0), (0, 0)]"
proof -
  have n: "length (filter (\<lambda>x. 100 \<le> x) (tindex (demo_table 30))) = 0"
    using rows_from_demo [of 100 30] by simp
  show ?thesis
    using slicing_total [of "demo_table 30" 119 100, OF sorted_demo aligned_demo has_required_demo]
    unfolding n by auto
qed

text \<open>
  Claim C10. The hour dropdown offers 24, and with the hour 24 the callback raises
  \<open>ValueError\<close> for every date string and every horizon: the text
  \<open><date> 24:0\<close> does not match the format \<open>%Y-%m-%d %H:%M\<close>, whose hour is
  \<open>0\<close> to \<open>23\<close>. \<open>plot_series\<close> is not called and no chart is returned.
\<close>

theorem hour_24_fails:
  "24 \<in> set hour_options \<and>
   (\<forall>date proy.
      update_output_div data (Some date) (Some 24) (Some proy) = ([], Inl ValueError))"
proof -
  have "24 \<in> set hour_options" by (simp add: hour_options_def)
  moreover have "update_output_div data (Some date) (Some 24) (Some proy) = ([], Inl ValueError)"
    for date proy
    using to_datetime_hour_24 [of date]
    by (simp add: update_output_div_def str_int_24 str_int_0)
  ultimately show ?thesis by blast
qed

end
